theory Spec2Isabelle
  imports Main
begin

section \<open>Python values, exceptions and function objects\<close>

text \<open>
  The decorators of \<^verbatim>\<open>fabric/decorators.py\<close> take Python functions, create wrapper
  functions and read and write attributes of function objects. A Python value is one of
  the constructors below; a function value is the address of its function object.
  Lists and tuples are values here (nothing in the module changes one in place), and
  the module runs in one thread. An attribute of a function object is an entry of its
  dictionary: \<^verbatim>\<open>hasattr\<close> on the names the module uses (\<^verbatim>\<open>hosts\<close>,
  \<^verbatim>\<open>roles\<close>, \<^verbatim>\<open>return_value\<close>, \<^verbatim>\<open>_sorted\<close>, \<^verbatim>\<open>_ensure_order\<close>)
  is membership in that dictionary.
\<close>

datatype val =
    VNone
  | VBool bool
  | VInt int
  | VStr string
  | VList "val list"
  | VTuple "val list"
  | VFun nat

datatype exn = TypeError | AttributeError | Raised string

type_synonym kwargs = "string \<rightharpoonup> val"

text \<open>
  The attribute part of a function object: the three names that \<^verbatim>\<open>functools.wraps\<close>
  assigns and the instance dictionary \<^verbatim>\<open>__dict__\<close>, where \<^verbatim>\<open>f.hosts = ...\<close> stores.
\<close>

record fobj =
  f_module :: string
  f_name :: string
  f_doc :: val
  f_dict :: "string \<rightharpoonup> val"

text \<open>
  The process state: the function objects by address (\<open>fresh\<close> is the next address a
  \<^verbatim>\<open>def\<close> allocates), the process-wide configuration \<^verbatim>\<open>env\<close> that
  \<^verbatim>\<open>settings\<close> overrides, and whatever else the task bodies read and write.
\<close>

record 'u state =
  heap :: "nat \<Rightarrow> fobj"
  fresh :: nat
  env :: "string \<rightharpoonup> val"
  user :: 'u

text \<open>
  Calling a function: positional arguments, keyword arguments and the state in; a
  returned value (\<open>Inr\<close>) or a raised exception (\<open>Inl\<close>) and the state out.
\<close>

type_synonym 'u callable =
  "val list \<Rightarrow> kwargs \<Rightarrow> 'u state \<Rightarrow> (exn + val) \<times> 'u state"

text \<open>A function object seen from outside: its address and what calling it does.\<close>

datatype 'u func = Func (ident: nat) (fcall: "'u callable")

text \<open>An argument that may be a function or a plain value (\<^verbatim>\<open>ensure_order\<close> tells them apart).\<close>

datatype 'u pyobj = Val val | Fun "'u func"

fun val_of :: "'u pyobj \<Rightarrow> val" where
  "val_of (Val v) = v"
| "val_of (Fun f) = VFun (ident f)"

subsection \<open>Attributes\<close>

definition hasattr :: "'u state \<Rightarrow> nat \<Rightarrow> string \<Rightarrow> bool" where
  "hasattr s r n = (f_dict (heap s r) n \<noteq> None)"

definition getattr :: "'u state \<Rightarrow> nat \<Rightarrow> string \<Rightarrow> exn + val" where
  "getattr s r n = (case f_dict (heap s r) n of None \<Rightarrow> Inl AttributeError | Some v \<Rightarrow> Inr v)"

definition setattr :: "'u state \<Rightarrow> nat \<Rightarrow> string \<Rightarrow> val \<Rightarrow> 'u state" where
  "setattr s r n v =
     s\<lparr>heap := (heap s)(r := (heap s r)\<lparr>f_dict := (f_dict (heap s r))(n \<mapsto> v)\<rparr>)\<rparr>"

text \<open>A \<^verbatim>\<open>def\<close> statement inside this module creates a function object with an empty dictionary.\<close>

definition new_function :: "string \<Rightarrow> 'u state \<Rightarrow> nat \<times> 'u state" where
  "new_function n s =
     (fresh s,
      s\<lparr>heap := (heap s)(fresh s :=
           \<lparr>f_module = ''fabric.decorators'', f_name = n, f_doc = VNone, f_dict = Map.empty\<rparr>),
        fresh := Suc (fresh s)\<rparr>)"

text \<open>
  \<^verbatim>\<open>functools.wraps(wrapped)\<close> applied to \<open>wrapper\<close> (Python 2): assign
  \<^verbatim>\<open>__module__\<close>, \<^verbatim>\<open>__name__\<close> and \<^verbatim>\<open>__doc__\<close>, then
  \<^verbatim>\<open>wrapper.__dict__.update(wrapped.__dict__)\<close>.
\<close>

definition update_wrapper :: "nat \<Rightarrow> nat \<Rightarrow> 'u state \<Rightarrow> 'u state" where
  "update_wrapper wrapper wrapped s =
     s\<lparr>heap := (heap s)(wrapper :=
          \<lparr>f_module = f_module (heap s wrapped),
           f_name = f_name (heap s wrapped),
           f_doc = f_doc (heap s wrapped),
           f_dict = f_dict (heap s wrapper) ++ f_dict (heap s wrapped)\<rparr>)\<rparr>"

subsection \<open>Built-ins the decorators use\<close>

text \<open>\<^verbatim>\<open>isinstance(x, StringTypes)\<close>.\<close>

fun is_string :: "val \<Rightarrow> bool" where
  "is_string (VStr _) = True"
| "is_string _ = False"

text \<open>\<^verbatim>\<open>list(x)\<close>: the elements of an iterable, a TypeError otherwise.\<close>

fun py_list :: "val \<Rightarrow> exn + val list" where
  "py_list (VList xs) = Inr xs"
| "py_list (VTuple xs) = Inr xs"
| "py_list (VStr cs) = Inr (map (\<lambda>c. VStr [c]) cs)"
| "py_list _ = Inl TypeError"

text \<open>Truth value of a Python object, as \<^verbatim>\<open>if x:\<close> reads it.\<close>

fun truth :: "val \<Rightarrow> bool" where
  "truth VNone = False"
| "truth (VBool b) = b"
| "truth (VInt i) = (i \<noteq> 0)"
| "truth (VStr cs) = (cs \<noteq> [])"
| "truth (VList xs) = (xs \<noteq> [])"
| "truth (VTuple xs) = (xs \<noteq> [])"
| "truth (VFun _) = True"

section \<open>hosts and roles\<close>

text \<open>\<^verbatim>\<open>def inner_decorator(*args, **kwargs): return func(*args, **kwargs)\<close>\<close>

definition inner_decorator :: "'u func \<Rightarrow> 'u callable" where
  "inner_decorator func args kwargs s = fcall func args kwargs s"

text \<open>
  \<open>host_list\<close> is the tuple of positional arguments of \<^verbatim>\<open>hosts\<close>. A single
  argument that is no string replaces the tuple; \<^verbatim>\<open>list\<close> of the result is stored
  on the wrapper, not on \<open>func\<close>.
\<close>

definition attach_hosts :: "val list \<Rightarrow> 'u func \<Rightarrow> 'u state \<Rightarrow> (exn + 'u func) \<times> 'u state" where
  "attach_hosts host_list func s =
     (let (r, s1) = new_function ''inner_decorator'' s;
          s2 = update_wrapper r (ident func) s1;
          hosts' = (if length host_list = 1 \<and> \<not> is_string (host_list ! 0)
                    then host_list ! 0 else VTuple host_list)
      in case py_list hosts' of
           Inl e \<Rightarrow> (Inl e, s2)
         | Inr xs \<Rightarrow> (Inr (Func r (inner_decorator func)), setattr s2 r ''hosts'' (VList xs)))"

definition hosts :: "val list \<Rightarrow> 'u func \<Rightarrow> 'u state \<Rightarrow> (exn + 'u func) \<times> 'u state" where
  "hosts host_list = attach_hosts host_list"

definition attach_roles :: "val list \<Rightarrow> 'u func \<Rightarrow> 'u state \<Rightarrow> (exn + 'u func) \<times> 'u state" where
  "attach_roles role_list func s =
     (let (r, s1) = new_function ''inner_decorator'' s;
          s2 = update_wrapper r (ident func) s1;
          roles' = (if length role_list = 1 \<and> \<not> is_string (role_list ! 0)
                    then role_list ! 0 else VTuple role_list)
      in case py_list roles' of
           Inl e \<Rightarrow> (Inl e, s2)
         | Inr xs \<Rightarrow> (Inr (Func r (inner_decorator func)), setattr s2 r ''roles'' (VList xs)))"

definition roles :: "val list \<Rightarrow> 'u func \<Rightarrow> 'u state \<Rightarrow> (exn + 'u func) \<times> 'u state" where
  "roles role_list = attach_roles role_list"

section \<open>runs_once\<close>

text \<open>
  \<open>self\<close> is the address of the wrapper itself: the body names \<^verbatim>\<open>decorated\<close>, the
  function it belongs to. The cache is the wrapper's attribute \<^verbatim>\<open>return_value\<close>,
  tested with \<^verbatim>\<open>hasattr\<close>, written only when \<open>func\<close> returns, and read back
  for the result.
\<close>

definition decorated :: "'u func \<Rightarrow> nat \<Rightarrow> 'u callable" where
  "decorated func self args kwargs s =
     (if \<not> hasattr s self ''return_value'' then
        (case fcall func args kwargs s of
           (Inl e, s1) \<Rightarrow> (Inl e, s1)
         | (Inr v, s1) \<Rightarrow>
             (let s2 = setattr s1 self ''return_value'' v
              in (getattr s2 self ''return_value'', s2)))
      else (getattr s self ''return_value'', s))"

definition runs_once :: "'u func \<Rightarrow> 'u state \<Rightarrow> 'u func \<times> 'u state" where
  "runs_once func s =
     (let (r, s1) = new_function ''decorated'' s;
          s2 = update_wrapper r (ident func) s1
      in (Func r (decorated func r), s2))"

section \<open>ensure_order\<close>

text \<open>
  \<^verbatim>\<open>real_decorator\<close> closes over the parameter \<^verbatim>\<open>sorted\<close> of
  \<^verbatim>\<open>ensure_order\<close> (here \<open>sorted'\<close>). Setting an attribute on a value that is
  not a function raises AttributeError.
\<close>

definition real_decorator :: "'u pyobj \<Rightarrow> 'u pyobj \<Rightarrow> 'u state \<Rightarrow> (exn + 'u pyobj) \<times> 'u state" where
  "real_decorator sorted' func s =
     (case func of
        Val v \<Rightarrow> (Inl AttributeError, s)
      | Fun f \<Rightarrow>
          (let s1 = setattr s (ident f) ''_sorted'' (val_of sorted');
               s2 = setattr s1 (ident f) ''_ensure_order'' (VBool True)
           in (Inr func, s2)))"

text \<open>\<^verbatim>\<open>type(x) == type(real_decorator)\<close>: \<open>x\<close> is a plain Python function.\<close>

fun is_function :: "'u pyobj \<Rightarrow> bool" where
  "is_function (Fun _) = True"
| "is_function (Val _) = False"

text \<open>
  What \<^verbatim>\<open>ensure_order\<close> returns: the result of \<^verbatim>\<open>real_decorator(sorted)\<close>, or
  the function object \<^verbatim>\<open>real_decorator\<close> itself (its address and what applying it does).
\<close>

datatype 'u ensured =
    Returned "'u pyobj"
  | Decorator nat "'u pyobj \<Rightarrow> 'u state \<Rightarrow> (exn + 'u pyobj) \<times> 'u state"

definition ensure_order :: "'u pyobj \<Rightarrow> 'u state \<Rightarrow> (exn + 'u ensured) \<times> 'u state" where
  "ensure_order sorted' s =
     (let (r, s1) = new_function ''real_decorator'' s
      in if is_function sorted' then
           (case real_decorator sorted' sorted' s1 of
              (Inl e, s2) \<Rightarrow> (Inl e, s2)
            | (Inr g, s2) \<Rightarrow> (Inr (Returned g), s2))
         else (Inr (Decorator r (real_decorator sorted')),
               setattr s1 r ''_ensure_order'' (VBool True)))"

section \<open>with_settings\<close>

text \<open>
  The \<^verbatim>\<open>with\<close> statement around a block that returns: enter the manager, run the
  block, and call the manager's exit on both ways out. On an exception the exit says
  whether to swallow it; then the function falls off its end and returns None.
\<close>

definition with_statement ::
  "('u state \<Rightarrow> 't \<times> 'u state) \<Rightarrow> ('t \<Rightarrow> exn option \<Rightarrow> 'u state \<Rightarrow> bool \<times> 'u state) \<Rightarrow>
   ('u state \<Rightarrow> (exn + val) \<times> 'u state) \<Rightarrow> 'u state \<Rightarrow> (exn + val) \<times> 'u state" where
  "with_statement enter exit block s =
     (let (t, s1) = enter s;
          (res, s2) = block s1
      in case res of
           Inr v \<Rightarrow> (Inr v, snd (exit t None s2))
         | Inl e \<Rightarrow>
             (let (swallow, s3) = exit t (Some e) s2
              in if swallow then (Inr VNone, s3) else (Inl e, s3)))"

text \<open>
  Modelled from the spec: \<^verbatim>\<open>fabric.context_managers.settings\<close> is imported by this
  module and is not among the sources. The spec says of it: the named overrides are
  applied to the process-wide configuration for the duration of the call, then
  unconditionally reverted (restored to prior values) on every exit path, and exceptions
  of the wrapped function pass through. Entering remembers the configuration and
  applies the overrides; leaving gives every overridden key its remembered binding back
  and swallows nothing.
\<close>

definition settings_enter :: "kwargs \<Rightarrow> 'u state \<Rightarrow> (string \<rightharpoonup> val) \<times> 'u state" where
  "settings_enter kw s = (env s, s\<lparr>env := env s ++ kw\<rparr>)"

definition settings_exit ::
  "kwargs \<Rightarrow> (string \<rightharpoonup> val) \<Rightarrow> exn option \<Rightarrow> 'u state \<Rightarrow> bool \<times> 'u state" where
  "settings_exit kw previous exc s =
     (False, s\<lparr>env := (\<lambda>k. if kw k \<noteq> None then previous k else env s k)\<rparr>)"

text \<open>\<^verbatim>\<open>def inner(*args, **kwargs): with settings(**kw_settings): return func(*args, **kwargs)\<close>\<close>

definition inner :: "kwargs \<Rightarrow> 'u func \<Rightarrow> 'u callable" where
  "inner kw_settings func args kwargs s =
     with_statement (settings_enter kw_settings) (settings_exit kw_settings)
       (fcall func args kwargs) s"

text \<open>\<^verbatim>\<open>outer\<close> creates \<^verbatim>\<open>inner\<close> and returns it as it is: no \<^verbatim>\<open>wraps\<close> here.\<close>

definition outer :: "kwargs \<Rightarrow> 'u func \<Rightarrow> 'u state \<Rightarrow> 'u func \<times> 'u state" where
  "outer kw_settings func s =
     (let (r, s1) = new_function ''inner'' s
      in (Func r (inner kw_settings func), s1))"

definition with_settings :: "kwargs \<Rightarrow> 'u func \<Rightarrow> 'u state \<Rightarrow> 'u func \<times> 'u state" where
  "with_settings kw_settings = outer kw_settings"

section \<open>Example tasks\<close>

text \<open>
  A fabfile that has defined one task at address 0. The rest of the state counts how
  often a task body has run.
\<close>

definition blank :: fobj where
  "blank = \<lparr>f_module = ''fabfile'', f_name = ''task'', f_doc = VNone, f_dict = Map.empty\<rparr>"

definition start :: "nat state" where
  "start = \<lparr>heap = (\<lambda>_. blank), fresh = 1, env = Map.empty, user = 0\<rparr>"

text \<open>Counts its runs and returns the count.\<close>

definition count_calls :: "nat callable" where
  "count_calls args kwargs s = (Inr (VInt (int (Suc (user s)))), s\<lparr>user := Suc (user s)\<rparr>)"

text \<open>Counts its runs; the first run raises, later runs return the count.\<close>

definition fail_first :: "nat callable" where
  "fail_first args kwargs s =
     (if user s = 0 then Inl (Raised ''first run fails'') else Inr (VInt (int (Suc (user s)))),
      s\<lparr>user := Suc (user s)\<rparr>)"

text \<open>Counts its runs and returns None.\<close>

definition return_none :: "nat callable" where
  "return_none args kwargs s = (Inr VNone, s\<lparr>user := Suc (user s)\<rparr>)"

text \<open>Counts its runs and returns the setting \<^verbatim>\<open>warn_only\<close>; raises when it is not set.\<close>

definition read_warn_only :: "nat callable" where
  "read_warn_only args kwargs s =
     (case env s ''warn_only'' of
        None \<Rightarrow> Inl (Raised ''warn_only is not set'')
      | Some v \<Rightarrow> Inr v,
      s\<lparr>user := Suc (user s)\<rparr>)"

section \<open>Properties\<close>

lemmas model_defs =
  runs_once_def decorated_def new_function_def update_wrapper_def hasattr_def getattr_def
  setattr_def hosts_def attach_hosts_def roles_def attach_roles_def inner_decorator_def
  ensure_order_def real_decorator_def with_settings_def outer_def inner_def
  with_statement_def settings_enter_def settings_exit_def

lemmas example_defs =
  blank_def start_def count_calls_def fail_first_def return_none_def read_warn_only_def

subsection \<open>Attributes\<close>

lemma hasattr_setattr:
  "hasattr (setattr s r n v) r' n' = ((r' = r \<and> n' = n) \<or> hasattr s r' n')"
  by (simp add: hasattr_def setattr_def)

lemma getattr_setattr_same: "getattr (setattr s r n v) r n = Inr v"
  by (simp add: getattr_def setattr_def)

lemma getattr_setattr_other:
  "r' \<noteq> r \<or> n' \<noteq> n \<Longrightarrow> getattr (setattr s r n v) r' n' = getattr s r' n'"
  by (auto simp: getattr_def setattr_def)

subsection \<open>The argument tuple of hosts and roles\<close>

lemma strings_stay_a_tuple:
  "(if length (map VStr L) = 1 \<and> \<not> is_string (map VStr L ! 0)
    then map VStr L ! 0 else VTuple (map VStr L)) = VTuple (map VStr L)"
  by (cases L) auto

lemma attach_hosts_result:
  assumes "py_list (if length args = 1 \<and> \<not> is_string (args ! 0) then args ! 0 else VTuple args)
           = Inr xs"
  shows "attach_hosts args func s =
          (Inr (Func (fresh s) (inner_decorator func)),
           setattr (update_wrapper (fresh s) (ident func) (snd (new_function ''inner_decorator'' s)))
             (fresh s) ''hosts'' (VList xs))"
  using assms by (simp add: attach_hosts_def new_function_def Let_def)

lemma attach_roles_result:
  assumes "py_list (if length args = 1 \<and> \<not> is_string (args ! 0) then args ! 0 else VTuple args)
           = Inr xs"
  shows "attach_roles args func s =
          (Inr (Func (fresh s) (inner_decorator func)),
           setattr (update_wrapper (fresh s) (ident func) (snd (new_function ''inner_decorator'' s)))
             (fresh s) ''roles'' (VList xs))"
  using assms by (simp add: attach_roles_def new_function_def Let_def)

lemma attach_hosts_strings:
  "attach_hosts (map VStr L) func s =
     (Inr (Func (fresh s) (inner_decorator func)),
      setattr (update_wrapper (fresh s) (ident func) (snd (new_function ''inner_decorator'' s)))
        (fresh s) ''hosts'' (VList (map VStr L)))"
  by (rule attach_hosts_result) (simp only: strings_stay_a_tuple py_list.simps)

lemma attach_roles_strings:
  "attach_roles (map VStr L) func s =
     (Inr (Func (fresh s) (inner_decorator func)),
      setattr (update_wrapper (fresh s) (ident func) (snd (new_function ''inner_decorator'' s)))
        (fresh s) ''roles'' (VList (map VStr L)))"
  by (rule attach_roles_result) (simp only: strings_stay_a_tuple py_list.simps)

text \<open>
  C5. For every non-empty list of strings \<open>L\<close> and every function \<open>f\<close>,
  \<^verbatim>\<open>hosts(*L)(f)\<close> returns a function whose attribute \<^verbatim>\<open>hosts\<close> is
  \<^verbatim>\<open>list(L)\<close>, in the order and with the repetitions of \<open>L\<close>; likewise
  \<^verbatim>\<open>roles(*L)(f)\<close> and the attribute \<^verbatim>\<open>roles\<close>.
\<close>

theorem hosts_roles_attach_the_list:
  assumes "L \<noteq> []"
  shows "(\<exists>g s'. hosts (map VStr L) f s = (Inr g, s') \<and>
                  getattr s' (ident g) ''hosts'' = Inr (VList (map VStr L))) \<and>
         (\<exists>g s'. roles (map VStr L) f s = (Inr g, s') \<and>
                  getattr s' (ident g) ''roles'' = Inr (VList (map VStr L)))"
  by (simp add: hosts_def roles_def attach_hosts_strings attach_roles_strings
      getattr_setattr_same)

theorem hosts_roles_attach_the_list_witness:
  "[''user1@host1'', ''host2'', ''host2''] \<noteq> [] \<and>
   (\<exists>g s'. hosts [VStr ''user1@host1'', VStr ''host2'', VStr ''host2''] (Func 0 count_calls) start
              = (Inr g, s') \<and>
            getattr s' (ident g) ''hosts''
              = Inr (VList [VStr ''user1@host1'', VStr ''host2'', VStr ''host2''])) \<and>
   (\<exists>g s'. roles [VStr ''user1@host1'', VStr ''host2'', VStr ''host2''] (Func 0 count_calls) start
              = (Inr g, s') \<and>
            getattr s' (ident g) ''roles''
              = Inr (VList [VStr ''user1@host1'', VStr ''host2'', VStr ''host2'']))"
  using hosts_roles_attach_the_list [of "[''user1@host1'', ''host2'', ''host2'']" "Func 0 count_calls" start]
  by simp

subsection \<open>The wrapper of hosts and roles\<close>

lemma attach_hosts_cases:
  "attach_hosts args func s = (Inr g, s') \<Longrightarrow>
   \<exists>xs. g = Func (fresh s) (inner_decorator func) \<and>
        s' = setattr (update_wrapper (fresh s) (ident func) (snd (new_function ''inner_decorator'' s)))
               (fresh s) ''hosts'' (VList xs)"
  by (auto simp: attach_hosts_def new_function_def Let_def split: sum.splits)

lemma attach_roles_cases:
  "attach_roles args func s = (Inr g, s') \<Longrightarrow>
   \<exists>xs. g = Func (fresh s) (inner_decorator func) \<and>
        s' = setattr (update_wrapper (fresh s) (ident func) (snd (new_function ''inner_decorator'' s)))
               (fresh s) ''roles'' (VList xs)"
  by (auto simp: attach_roles_def new_function_def Let_def split: sum.splits)

lemma wrapper_keeps_original:
  "r \<noteq> fresh s \<Longrightarrow>
   heap (setattr (update_wrapper (fresh s) r (snd (new_function n s))) (fresh s) k v) r = heap s r"
  by (simp add: setattr_def update_wrapper_def new_function_def)

lemma wrapper_copies_dict:
  "r \<noteq> fresh s \<Longrightarrow>
   f_dict (heap (setattr (update_wrapper (fresh s) r (snd (new_function n s))) (fresh s) k v) (fresh s))
     = (f_dict (heap s r))(k \<mapsto> v)"
  by (simp add: setattr_def update_wrapper_def new_function_def)

text \<open>A single argument that is neither a string nor an iterable: \<^verbatim>\<open>list\<close> raises.\<close>

lemma hosts_non_iterable_raises:
  "fst (hosts [VInt n] f s) = Inl TypeError \<and> fst (roles [VInt n] f s) = Inl TypeError"
  by (simp add: hosts_def roles_def attach_hosts_def attach_roles_def new_function_def)

text \<open>
  C6. For every non-empty list of strings \<open>L\<close>, \<^verbatim>\<open>hosts(L)\<close> gives what
  \<^verbatim>\<open>hosts(*L)\<close> gives. A single argument that is no string is taken as the iterable
  of the entries; a single string, and any other number of arguments, are the entries
  themselves.
\<close>

theorem hosts_single_iterable_is_variadic:
  assumes "L \<noteq> []"
  shows "hosts [VList (map VStr L)] f s = hosts (map VStr L) f s \<and>
         (\<forall>x xs. \<not> is_string x \<and> py_list x = Inr xs \<longrightarrow>
            (\<exists>g s'. hosts [x] f s = (Inr g, s') \<and> getattr s' (ident g) ''hosts'' = Inr (VList xs))) \<and>
         (\<forall>h. \<exists>g s'. hosts [VStr h] f s = (Inr g, s') \<and>
            getattr s' (ident g) ''hosts'' = Inr (VList [VStr h])) \<and>
         (\<forall>args. length args \<noteq> 1 \<longrightarrow>
            (\<exists>g s'. hosts args f s = (Inr g, s') \<and> getattr s' (ident g) ''hosts'' = Inr (VList args)))"
proof (intro conjI allI impI)
  show "hosts [VList (map VStr L)] f s = hosts (map VStr L) f s"
    by (simp add: hosts_def attach_hosts_strings attach_hosts_result)
next
  fix x xs
  assume "\<not> is_string x \<and> py_list x = Inr xs"
  then show "\<exists>g s'. hosts [x] f s = (Inr g, s') \<and> getattr s' (ident g) ''hosts'' = Inr (VList xs)"
    by (simp add: hosts_def attach_hosts_result getattr_setattr_same)
next
  fix h
  show "\<exists>g s'. hosts [VStr h] f s = (Inr g, s') \<and>
          getattr s' (ident g) ''hosts'' = Inr (VList [VStr h])"
    by (simp add: hosts_def attach_hosts_result getattr_setattr_same)
next
  fix args :: "val list"
  assume "length args \<noteq> 1"
  then show "\<exists>g s'. hosts args f s = (Inr g, s') \<and> getattr s' (ident g) ''hosts'' = Inr (VList args)"
    by (simp add: hosts_def attach_hosts_result getattr_setattr_same)
qed

theorem hosts_single_iterable_is_variadic_witness:
  "[''host1'', ''host2''] \<noteq> [] \<and>
   hosts [VList [VStr ''host1'', VStr ''host2'']] (Func 0 count_calls) start
     = hosts [VStr ''host1'', VStr ''host2''] (Func 0 count_calls) start \<and>
   (\<exists>g s'. hosts [VTuple [VStr ''host1'', VStr ''host2'']] (Func 0 count_calls) start = (Inr g, s') \<and>
      getattr s' (ident g) ''hosts'' = Inr (VList [VStr ''host1'', VStr ''host2''])) \<and>
   (\<exists>g s'. hosts [VStr ''host1''] (Func 0 count_calls) start = (Inr g, s') \<and>
      getattr s' (ident g) ''hosts'' = Inr (VList [VStr ''host1''])) \<and>
   (\<exists>g s'. hosts [] (Func 0 count_calls) start = (Inr g, s') \<and>
      getattr s' (ident g) ''hosts'' = Inr (VList []))"
proof -
  have ne: "[''host1'', ''host2''] \<noteq> []" by simp
  note t = hosts_single_iterable_is_variadic [OF ne, of "Func 0 count_calls" start]
  have a: "hosts [VList [VStr ''host1'', VStr ''host2'']] (Func 0 count_calls) start
     = hosts [VStr ''host1'', VStr ''host2''] (Func 0 count_calls) start"
    using t by simp
  have b: "\<not> is_string (VTuple [VStr ''host1'', VStr ''host2'']) \<and>
           py_list (VTuple [VStr ''host1'', VStr ''host2'']) = Inr [VStr ''host1'', VStr ''host2'']"
    by simp
  have c: "length ([] :: val list) \<noteq> 1" by simp
  from t b have b': "\<exists>g s'. hosts [VTuple [VStr ''host1'', VStr ''host2'']] (Func 0 count_calls) start = (Inr g, s') \<and>
      getattr s' (ident g) ''hosts'' = Inr (VList [VStr ''host1'', VStr ''host2''])"
    by blast
  from t have d: "\<exists>g s'. hosts [VStr ''host1''] (Func 0 count_calls) start = (Inr g, s') \<and>
      getattr s' (ident g) ''hosts'' = Inr (VList [VStr ''host1''])"
    by blast
  from t c have e: "\<exists>g s'. hosts [] (Func 0 count_calls) start = (Inr g, s') \<and>
      getattr s' (ident g) ''hosts'' = Inr (VList [])"
    by blast
  from ne a b' d e show ?thesis by blast
qed

text \<open>
  C7, as the code has it. \<^verbatim>\<open>hosts\<close> and \<^verbatim>\<open>roles\<close> return a new function,
  \<^verbatim>\<open>inner_decorator\<close>, and leave the original function object as it was; the
  attribute is set on the new function. Calling the new function with any arguments
  is calling the original with the same arguments: same result, same effects.
\<close>

theorem hosts_roles_wrapper_calls_original:
  assumes "ident f < fresh s"
    and "hosts args f s = (Inr g, s') \<or> roles args f s = (Inr g, s')"
  shows "ident g = fresh s \<and> ident g \<noteq> ident f \<and>
         heap s' (ident f) = heap s (ident f) \<and>
         (hosts args f s = (Inr g, s') \<longrightarrow> hasattr s' (ident g) ''hosts'') \<and>
         (roles args f s = (Inr g, s') \<longrightarrow> hasattr s' (ident g) ''roles'') \<and>
         (\<forall>a k t. fcall g a k t = fcall f a k t)"
proof -
  from assms(1) have ne: "ident f \<noteq> fresh s" by simp
  have hosts_attr: "hasattr s' (ident g) ''hosts''" if "hosts args f s = (Inr g, s')"
    using attach_hosts_cases [of args f s g s'] that
    by (auto simp: hosts_def hasattr_setattr)
  have roles_attr: "hasattr s' (ident g) ''roles''" if "roles args f s = (Inr g, s')"
    using attach_roles_cases [of args f s g s'] that
    by (auto simp: roles_def hasattr_setattr)
  from assms(2) obtain n xs where g: "g = Func (fresh s) (inner_decorator f)"
    and s': "s' = setattr (update_wrapper (fresh s) (ident f) (snd (new_function ''inner_decorator'' s)))
               (fresh s) n (VList xs)"
    using attach_hosts_cases [of args f s g s'] attach_roles_cases [of args f s g s']
    unfolding hosts_def roles_def by blast
  from g have calls: "\<forall>a k t. fcall g a k t = fcall f a k t"
    by (simp add: inner_decorator_def)
  from ne g s' have "ident g = fresh s \<and> ident g \<noteq> ident f \<and> heap s' (ident f) = heap s (ident f)"
    by (simp add: wrapper_keeps_original)
  with hosts_attr roles_attr calls show ?thesis by blast
qed

text \<open>
  C7 as stated fails: the function that \<^verbatim>\<open>hosts('host1')\<close> returns for the task at
  address 0 is another object, and the task itself has no attribute \<^verbatim>\<open>hosts\<close>
  afterwards.
\<close>

theorem hosts_returns_original_counterexample:
  "\<exists>g s'. hosts [VStr ''host1''] (Func 0 count_calls) start = (Inr g, s') \<and>
      ident g \<noteq> ident (Func 0 count_calls :: nat func) \<and>
      \<not> hasattr s' (ident (Func 0 count_calls :: nat func)) ''hosts'' \<and>
      getattr s' (ident g) ''hosts'' = Inr (VList [VStr ''host1''])"
  by (simp add: model_defs example_defs)

theorem hosts_roles_wrapper_calls_original_witness:
  "ident (Func 0 count_calls :: nat func) < fresh start \<and>
   roles [VStr ''web''] (Func 0 count_calls) start
     = (Inr (Func 1 (inner_decorator (Func 0 count_calls))),
        snd (roles [VStr ''web''] (Func 0 count_calls) start)) \<and>
   heap (snd (roles [VStr ''web''] (Func 0 count_calls) start)) 0 = heap start 0 \<and>
   hasattr (snd (roles [VStr ''web''] (Func 0 count_calls) start)) 1 ''roles'' \<and>
   fcall (Func 1 (inner_decorator (Func 0 count_calls))) [VInt 5] Map.empty start
     = (Inr (VInt 1), start\<lparr>user := 1\<rparr>)"
proof -
  have a: "ident (Func 0 count_calls :: nat func) < fresh start"
    by (simp add: start_def)
  have b: "roles [VStr ''web''] (Func 0 count_calls) start
     = (Inr (Func 1 (inner_decorator (Func 0 count_calls))),
        snd (roles [VStr ''web''] (Func 0 count_calls) start))"
    by (simp add: roles_def attach_roles_def new_function_def start_def)
  note t = hosts_roles_wrapper_calls_original [OF a disjI2, OF b]
  have c: "fcall (Func 0 count_calls) [VInt 5] Map.empty start = (Inr (VInt 1), start\<lparr>user := 1\<rparr>)"
    by (simp add: count_calls_def start_def)
  from t c have d: "fcall (Func 1 (inner_decorator (Func 0 count_calls))) [VInt 5] Map.empty start
     = (Inr (VInt 1), start\<lparr>user := 1\<rparr>)" by metis
  from t have e: "heap (snd (roles [VStr ''web''] (Func 0 count_calls) start)) 0 = heap start 0"
    by simp
  from t b have "hasattr (snd (roles [VStr ''web''] (Func 0 count_calls) start))
      (ident (Func 1 (inner_decorator (Func 0 count_calls)) :: nat func)) ''roles''"
    by blast
  then have f: "hasattr (snd (roles [VStr ''web''] (Func 0 count_calls) start)) 1 ''roles''"
    by simp
  from a b e f d show ?thesis by blast
qed

subsection \<open>with_settings\<close>

lemma with_settings_result:
  "with_settings kw f s0 = (g, s1) \<Longrightarrow> g = Func (fresh s0) (inner kw f)"
  by (auto simp: with_settings_def outer_def new_function_def)

text \<open>
  C4. A call of the function that \<^verbatim>\<open>with_settings(**kw)\<close> makes of \<open>f\<close> runs
  \<open>f\<close> in the configuration with the overrides \<open>kw\<close> applied, hands on what \<open>f\<close>
  returns or raises, and leaves \<open>f\<close>'s final state with every overridden key set back
  to what it was before the call. Where \<open>f\<close> itself leaves the configuration alone,
  the whole configuration is as before.
\<close>

theorem with_settings_applies_and_restores:
  assumes "with_settings kw f s0 = (g, s1)"
    and "fcall f args kwargs (s\<lparr>env := env s ++ kw\<rparr>) = (res, s2)"
  shows "fcall g args kwargs s
           = (res, s2\<lparr>env := (\<lambda>k. if kw k \<noteq> None then env s k else env s2 k)\<rparr>) \<and>
         (\<forall>k. kw k \<noteq> None \<longrightarrow> env (s\<lparr>env := env s ++ kw\<rparr>) k = kw k) \<and>
         (\<forall>k. kw k \<noteq> None \<longrightarrow> env (snd (fcall g args kwargs s)) k = env s k) \<and>
         (env s2 = env s ++ kw \<longrightarrow> env (snd (fcall g args kwargs s)) = env s)"
proof -
  from assms(1) have g: "fcall g = inner kw f"
    using with_settings_result by fastforce
  have call: "fcall g args kwargs s
           = (res, s2\<lparr>env := (\<lambda>k. if kw k \<noteq> None then env s k else env s2 k)\<rparr>)"
    using assms(2)
    by (cases res) (simp_all add: g inner_def with_statement_def settings_enter_def settings_exit_def)
  have active: "\<forall>k. kw k \<noteq> None \<longrightarrow> env (s\<lparr>env := env s ++ kw\<rparr>) k = kw k"
    by (auto simp: map_add_def split: option.splits)
  have restored: "\<forall>k. kw k \<noteq> None \<longrightarrow> env (snd (fcall g args kwargs s)) k = env s k"
    by (simp add: call)
  have whole: "env s2 = env s ++ kw \<longrightarrow> env (snd (fcall g args kwargs s)) = env s"
    by (auto simp: call fun_eq_iff map_add_def split: option.splits)
  from call active restored whole show ?thesis by blast
qed

theorem with_settings_applies_and_restores_witness:
  "with_settings [''warn_only'' \<mapsto> VBool True] (Func 0 read_warn_only) start
     = (Func 1 (inner [''warn_only'' \<mapsto> VBool True] (Func 0 read_warn_only)),
        snd (with_settings [''warn_only'' \<mapsto> VBool True] (Func 0 read_warn_only) start)) \<and>
   fcall (Func 0 read_warn_only) [] Map.empty (start\<lparr>env := env start ++ [''warn_only'' \<mapsto> VBool True]\<rparr>)
     = (Inr (VBool True), start\<lparr>env := [''warn_only'' \<mapsto> VBool True], user := 1\<rparr>) \<and>
   fcall (Func 1 (inner [''warn_only'' \<mapsto> VBool True] (Func 0 read_warn_only))) [] Map.empty start
     = (Inr (VBool True), start\<lparr>user := 1\<rparr>) \<and>
   fcall (Func 0 read_warn_only) [] Map.empty start
     = (Inl (Raised ''warn_only is not set''), start\<lparr>user := 1\<rparr>) \<and>
   fcall (Func 1 (inner [''user'' \<mapsto> VStr ''deploy''] (Func 0 read_warn_only))) [] Map.empty start
     = (Inl (Raised ''warn_only is not set''), start\<lparr>user := 1\<rparr>)"
proof -
  let ?kw = "[''warn_only'' \<mapsto> VBool True]"
  let ?kw2 = "[''user'' \<mapsto> VStr ''deploy'']"
  have a: "with_settings ?kw (Func 0 read_warn_only) start
     = (Func 1 (inner ?kw (Func 0 read_warn_only)),
        snd (with_settings ?kw (Func 0 read_warn_only) start))"
    by (simp add: with_settings_def outer_def new_function_def start_def)
  have b: "fcall (Func 0 read_warn_only) [] Map.empty (start\<lparr>env := env start ++ ?kw\<rparr>)
     = (Inr (VBool True), start\<lparr>env := ?kw, user := 1\<rparr>)"
    by (simp add: read_warn_only_def start_def)
  note t = with_settings_applies_and_restores [OF a b]
  have c: "start\<lparr>env := ?kw, user := 1,
             env := (\<lambda>k. if ?kw k \<noteq> None then env start k
                         else env (start\<lparr>env := ?kw, user := 1\<rparr>) k)\<rparr>
           = start\<lparr>user := 1\<rparr>"
    by (simp add: start_def fun_eq_iff)
  from t c have d: "fcall (Func 1 (inner ?kw (Func 0 read_warn_only))) [] Map.empty start
     = (Inr (VBool True), start\<lparr>user := 1\<rparr>)"
    by simp
  have e: "fcall (Func 0 read_warn_only) [] Map.empty start
     = (Inl (Raised ''warn_only is not set''), start\<lparr>user := 1\<rparr>)"
    by (simp add: read_warn_only_def start_def)
  have a2: "with_settings ?kw2 (Func 0 read_warn_only) start
     = (Func 1 (inner ?kw2 (Func 0 read_warn_only)),
        snd (with_settings ?kw2 (Func 0 read_warn_only) start))"
    by (simp add: with_settings_def outer_def new_function_def start_def)
  have b2: "fcall (Func 0 read_warn_only) [] Map.empty (start\<lparr>env := env start ++ ?kw2\<rparr>)
     = (Inl (Raised ''warn_only is not set''), start\<lparr>env := ?kw2, user := 1\<rparr>)"
    by (simp add: read_warn_only_def start_def)
  note t2 = with_settings_applies_and_restores [OF a2 b2]
  have c2: "start\<lparr>env := ?kw2, user := 1,
             env := (\<lambda>k. if ?kw2 k \<noteq> None then env start k
                         else env (start\<lparr>env := ?kw2, user := 1\<rparr>) k)\<rparr>
           = start\<lparr>user := 1\<rparr>"
    by (simp add: start_def fun_eq_iff)
  from t2 c2 have d2: "fcall (Func 1 (inner ?kw2 (Func 0 read_warn_only))) [] Map.empty start
     = (Inl (Raised ''warn_only is not set''), start\<lparr>user := 1\<rparr>)"
    by simp
  from a b d e d2 show ?thesis by blast
qed

subsection \<open>ensure_order\<close>

text \<open>
  C1 says that the bare form leaves \<^verbatim>\<open>_sorted == False\<close>. The code runs
  \<^verbatim>\<open>real_decorator(sorted)\<close> with \<^verbatim>\<open>sorted\<close> bound to the function itself, so
  \<^verbatim>\<open>func._sorted = sorted\<close> stores the function: the attribute is the function
  object, which is not False and is true when tested.
\<close>

theorem ensure_order_bare_stores_the_function:
  "\<exists>s'. ensure_order (Fun f) s = (Inr (Returned (Fun f)), s') \<and>
        getattr s' (ident f) ''_ensure_order'' = Inr (VBool True) \<and>
        getattr s' (ident f) ''_sorted'' = Inr (VFun (ident f)) \<and>
        getattr s' (ident f) ''_sorted'' \<noteq> Inr (VBool False) \<and>
        truth (VFun (ident f))"
  by (simp add: ensure_order_def real_decorator_def new_function_def
      getattr_setattr_same getattr_setattr_other)

text \<open>The same at the task of the example, and beside it the call form with the default argument,
  \<^verbatim>\<open>ensure_order()\<close>, which does store False.\<close>

lemma ensure_order_bare_example:
  "\<exists>s'. ensure_order (Fun (Func 0 count_calls)) start = (Inr (Returned (Fun (Func 0 count_calls))), s') \<and>
        getattr s' 0 ''_sorted'' = Inr (VFun 0)"
  by (simp add: ensure_order_def real_decorator_def new_function_def
      getattr_setattr_same getattr_setattr_other)

lemma ensure_order_default_sorted_false:
  "\<exists>d s1 s2. ensure_order (Val (VBool False)) s = (Inr (Decorator (fresh s) d), s1) \<and>
        d (Fun f) s1 = (Inr (Fun f), s2) \<and>
        getattr s2 (ident f) ''_ensure_order'' = Inr (VBool True) \<and>
        getattr s2 (ident f) ''_sorted'' = Inr (VBool False)"
  by (simp add: ensure_order_def real_decorator_def new_function_def
      getattr_setattr_same getattr_setattr_other)

text \<open>
  C9. \<^verbatim>\<open>ensure_order(sorted=True)\<close> returns the decorator \<^verbatim>\<open>real_decorator\<close>;
  applied to \<open>f\<close> it returns \<open>f\<close> itself, with \<^verbatim>\<open>_ensure_order\<close> and
  \<^verbatim>\<open>_sorted\<close> both True.
\<close>

theorem ensure_order_sorted_true:
  "\<exists>d s1 s2. ensure_order (Val (VBool True)) s = (Inr (Decorator (fresh s) d), s1) \<and>
        d (Fun f) s1 = (Inr (Fun f), s2) \<and>
        getattr s2 (ident f) ''_ensure_order'' = Inr (VBool True) \<and>
        getattr s2 (ident f) ''_sorted'' = Inr (VBool True)"
  by (simp add: ensure_order_def real_decorator_def new_function_def
      getattr_setattr_same getattr_setattr_other)

subsection \<open>runs_once\<close>

lemma decorated_cached:
  "getattr s self ''return_value'' = Inr v \<Longrightarrow> decorated func self args kwargs s = (Inr v, s)"
  by (auto simp: decorated_def getattr_def hasattr_def split: option.splits)

lemma decorated_first_return:
  "\<not> hasattr s self ''return_value'' \<Longrightarrow> fcall func args kwargs s = (Inr v, s1) \<Longrightarrow>
   decorated func self args kwargs s = (Inr v, setattr s1 self ''return_value'' v)"
  by (simp add: decorated_def getattr_setattr_same)

lemma decorated_first_raise:
  "\<not> hasattr s self ''return_value'' \<Longrightarrow> fcall func args kwargs s = (Inl e, s1) \<Longrightarrow>
   decorated func self args kwargs s = (Inl e, s1)"
  by (simp add: decorated_def)

lemma decorated_runs_func:
  "\<not> hasattr s self ''return_value'' \<Longrightarrow>
   decorated func self args kwargs s =
     (case fcall func args kwargs s of
        (Inl e, t) \<Rightarrow> (Inl e, t)
      | (Inr v, t) \<Rightarrow> (Inr v, setattr t self ''return_value'' v))"
  by (simp add: decorated_def getattr_setattr_same split: prod.splits sum.splits)

lemma runs_once_result:
  "runs_once func s = (g, s1) \<Longrightarrow> g = Func (fresh s) (decorated func (fresh s))"
  by (auto simp: runs_once_def new_function_def Let_def)

lemma runs_once_slot:
  "runs_once func s = (g, s1) \<Longrightarrow>
   hasattr s1 (ident g) ''return_value''
     = (ident func \<noteq> fresh s \<and> hasattr s (ident func) ''return_value'')"
  by (auto simp: runs_once_def new_function_def update_wrapper_def hasattr_def Let_def
      split: if_splits)

text \<open>
  C2, as the code has it. When \<open>func\<close> has no attribute \<^verbatim>\<open>return_value\<close> at the
  time \<^verbatim>\<open>runs_once\<close> wraps it, the wrapper starts with an empty cache. The first
  call that finds the cache as the wrapping left it runs \<open>func\<close>; when that run returns
  \<open>v\<close>, the call returns \<open>v\<close> and stores it, and from then on every call, with any
  arguments, in any state where the cache holds \<open>v\<close>, returns \<open>v\<close> and leaves the
  state as it is: \<open>func\<close> does not run again.
\<close>

theorem runs_once_runs_body_once:
  assumes "runs_once func s0 = (g, s1)"
    and "\<not> hasattr s0 (ident func) ''return_value''"
    and "hasattr s (ident g) ''return_value'' = hasattr s1 (ident g) ''return_value''"
    and "fcall func args kwargs s = (Inr v, s')"
  shows "\<not> hasattr s1 (ident g) ''return_value'' \<and>
         fcall g args kwargs s = (Inr v, setattr s' (ident g) ''return_value'' v) \<and>
         getattr (setattr s' (ident g) ''return_value'' v) (ident g) ''return_value'' = Inr v \<and>
         (\<forall>args2 kwargs2 t. getattr t (ident g) ''return_value'' = Inr v \<longrightarrow>
            fcall g args2 kwargs2 t = (Inr v, t))"
proof -
  from assms(1) have g: "g = Func (fresh s0) (decorated func (fresh s0))"
    by (rule runs_once_result)
  from assms(1,2) have empty1: "\<not> hasattr s1 (ident g) ''return_value''"
    by (simp add: runs_once_slot)
  with assms(3) have empty: "\<not> hasattr s (fresh s0) ''return_value''"
    by (simp add: g)
  from empty assms(4) have first: "fcall g args kwargs s = (Inr v, setattr s' (ident g) ''return_value'' v)"
    by (simp add: g decorated_first_return)
  have later: "\<forall>args2 kwargs2 t. getattr t (ident g) ''return_value'' = Inr v \<longrightarrow>
            fcall g args2 kwargs2 t = (Inr v, t)"
    by (simp add: g decorated_cached)
  from empty1 first later show ?thesis
    by (simp add: getattr_setattr_same)
qed

text \<open>
  C2 as stated fails in two ways. A function that already carries an attribute
  \<^verbatim>\<open>return_value\<close> (here 42) is never run: the first call of the wrapper returns 42
  and the run counter stays 0. A function whose first run raises is run again by the
  second call: the second call returns 2, the count of runs.
\<close>

theorem runs_once_first_call_counterexample:
  "(case runs_once (Func 0 count_calls) (setattr start 0 ''return_value'' (VInt 42)) of
      (g, s1) \<Rightarrow>
        (case fcall g [] Map.empty s1 of
           (r1, s2) \<Rightarrow> r1 = Inr (VInt 42) \<and> user s2 = 0 \<and> s2 = s1)) \<and>
   (case runs_once (Func 0 fail_first) start of
      (g, s1) \<Rightarrow>
        (case fcall g [] Map.empty s1 of
           (r1, s2) \<Rightarrow>
             (case fcall g [VInt 7] Map.empty s2 of
                (r2, s3) \<Rightarrow>
                  r1 = Inl (Raised ''first run fails'') \<and> user s2 = 1 \<and>
                  r2 = Inr (VInt 2) \<and> user s3 = 2)))"
  by (simp add: model_defs example_defs)

theorem runs_once_runs_body_once_witness:
  "(case runs_once (Func 0 count_calls) start of
      (g, s1) \<Rightarrow>
        \<not> hasattr start 0 ''return_value'' \<and>
        \<not> hasattr s1 (ident g) ''return_value'' \<and>
        fcall (Func 0 count_calls) [] Map.empty s1 = (Inr (VInt 1), s1\<lparr>user := 1\<rparr>) \<and>
        fcall g [] Map.empty s1 = (Inr (VInt 1), setattr (s1\<lparr>user := 1\<rparr>) (ident g) ''return_value'' (VInt 1)) \<and>
        fcall g [VInt 7] Map.empty (setattr (s1\<lparr>user := 1\<rparr>) (ident g) ''return_value'' (VInt 1))
          = (Inr (VInt 1), setattr (s1\<lparr>user := 1\<rparr>) (ident g) ''return_value'' (VInt 1)))"
proof -
  let ?f = "Func 0 count_calls :: nat func"
  let ?g = "Func 1 (decorated ?f 1) :: nat func"
  let ?s1 = "snd (runs_once ?f start)"
  have a: "runs_once ?f start = (?g, ?s1)"
    by (simp add: runs_once_def new_function_def start_def)
  have b: "\<not> hasattr start (ident ?f) ''return_value''"
    by (simp add: hasattr_def example_defs)
  have c: "hasattr ?s1 (ident ?g) ''return_value'' = hasattr ?s1 (ident ?g) ''return_value''"
    by simp
  have d: "fcall ?f [] Map.empty ?s1 = (Inr (VInt 1), ?s1\<lparr>user := 1\<rparr>)"
    by (simp add: model_defs example_defs)
  note t = runs_once_runs_body_once [OF a b c d]
  from t have e: "getattr (setattr (?s1\<lparr>user := 1\<rparr>) (ident ?g) ''return_value'' (VInt 1))
                    (ident ?g) ''return_value'' = Inr (VInt 1)"
    by blast
  from t e have f: "fcall ?g [VInt 7] Map.empty (setattr (?s1\<lparr>user := 1\<rparr>) (ident ?g) ''return_value'' (VInt 1))
          = (Inr (VInt 1), setattr (?s1\<lparr>user := 1\<rparr>) (ident ?g) ''return_value'' (VInt 1))"
    by blast
  from t have t1: "\<not> hasattr ?s1 (ident ?g) ''return_value''"
    by blast
  from t have t2: "fcall ?g [] Map.empty ?s1
      = (Inr (VInt 1), setattr (?s1\<lparr>user := 1\<rparr>) (ident ?g) ''return_value'' (VInt 1))"
    by blast
  from b have b': "\<not> hasattr start 0 ''return_value''"
    by simp
  from b' t1 d t2 f have w:
    "\<not> hasattr start 0 ''return_value'' \<and>
     \<not> hasattr ?s1 (ident ?g) ''return_value'' \<and>
     fcall (Func 0 count_calls) [] Map.empty ?s1 = (Inr (VInt 1), ?s1\<lparr>user := 1\<rparr>) \<and>
     fcall ?g [] Map.empty ?s1 = (Inr (VInt 1), setattr (?s1\<lparr>user := 1\<rparr>) (ident ?g) ''return_value'' (VInt 1)) \<and>
     fcall ?g [VInt 7] Map.empty (setattr (?s1\<lparr>user := 1\<rparr>) (ident ?g) ''return_value'' (VInt 1))
       = (Inr (VInt 1), setattr (?s1\<lparr>user := 1\<rparr>) (ident ?g) ''return_value'' (VInt 1))"
    by blast
  show ?thesis
    by (subst a) (simp only: prod.case, rule w)
qed

text \<open>
  C3. When the cache is empty and the run of \<open>func\<close> raises, the call of the wrapper
  raises the same exception and ends in the state \<open>func\<close> ended in: the wrapper
  stores nothing. So, the run having left the wrapper's object alone, the cache is
  still empty, and the next call runs \<open>func\<close> again.
\<close>

theorem runs_once_exception_not_cached:
  assumes "runs_once func s0 = (g, s1)"
    and "\<not> hasattr s (ident g) ''return_value''"
    and "fcall func args kwargs s = (Inl e, s')"
    and "heap s' (ident g) = heap s (ident g)"
  shows "fcall g args kwargs s = (Inl e, s') \<and>
         \<not> hasattr s' (ident g) ''return_value'' \<and>
         (\<forall>args2 kwargs2. fcall g args2 kwargs2 s' =
            (case fcall func args2 kwargs2 s' of
               (Inl e2, t) \<Rightarrow> (Inl e2, t)
             | (Inr v, t) \<Rightarrow> (Inr v, setattr t (ident g) ''return_value'' v)))"
proof -
  from assms(1) have g: "g = Func (fresh s0) (decorated func (fresh s0))"
    by (rule runs_once_result)
  from assms(2,3) have raised: "fcall g args kwargs s = (Inl e, s')"
    by (simp add: g decorated_first_raise)
  from assms(2,4) have empty: "\<not> hasattr s' (ident g) ''return_value''"
    by (simp add: hasattr_def)
  then have empty0: "\<not> hasattr s' (fresh s0) ''return_value''"
    by (simp add: g)
  have again: "\<forall>args2 kwargs2. fcall g args2 kwargs2 s' =
            (case fcall func args2 kwargs2 s' of
               (Inl e2, t) \<Rightarrow> (Inl e2, t)
             | (Inr v, t) \<Rightarrow> (Inr v, setattr t (ident g) ''return_value'' v))"
    unfolding g func.sel using empty0 by (simp add: decorated_runs_func)
  from raised empty again show ?thesis by blast
qed

theorem runs_once_exception_not_cached_witness:
  "(case runs_once (Func 0 fail_first) start of
      (g, s1) \<Rightarrow>
        \<not> hasattr s1 (ident g) ''return_value'' \<and>
        fcall (Func 0 fail_first) [] Map.empty s1
          = (Inl (Raised ''first run fails''), s1\<lparr>user := 1\<rparr>) \<and>
        heap (s1\<lparr>user := 1\<rparr>) (ident g) = heap s1 (ident g) \<and>
        fcall g [] Map.empty s1 = (Inl (Raised ''first run fails''), s1\<lparr>user := 1\<rparr>) \<and>
        \<not> hasattr (s1\<lparr>user := 1\<rparr>) (ident g) ''return_value'' \<and>
        fcall g [VInt 7] Map.empty (s1\<lparr>user := 1\<rparr>)
          = (Inr (VInt 2), setattr (s1\<lparr>user := 2\<rparr>) (ident g) ''return_value'' (VInt 2)))"
proof -
  let ?f = "Func 0 fail_first :: nat func"
  let ?g = "Func 1 (decorated ?f 1) :: nat func"
  let ?s1 = "snd (runs_once ?f start)"
  have a: "runs_once ?f start = (?g, ?s1)"
    by (simp add: runs_once_def new_function_def start_def)
  have b: "\<not> hasattr ?s1 (ident ?g) ''return_value''"
    by (simp add: model_defs example_defs)
  have c: "fcall ?f [] Map.empty ?s1 = (Inl (Raised ''first run fails''), ?s1\<lparr>user := 1\<rparr>)"
    by (simp add: model_defs example_defs)
  have d: "heap (?s1\<lparr>user := 1\<rparr>) (ident ?g) = heap ?s1 (ident ?g)"
    by simp
  note t = runs_once_exception_not_cached [OF a b c d]
  from t have t1: "fcall ?g [] Map.empty ?s1 = (Inl (Raised ''first run fails''), ?s1\<lparr>user := 1\<rparr>)"
    by blast
  from t have t2: "\<not> hasattr (?s1\<lparr>user := 1\<rparr>) (ident ?g) ''return_value''"
    by blast
  from t have t3: "fcall ?g [VInt 7] Map.empty (?s1\<lparr>user := 1\<rparr>) =
            (case fcall ?f [VInt 7] Map.empty (?s1\<lparr>user := 1\<rparr>) of
               (Inl e2, t) \<Rightarrow> (Inl e2, t)
             | (Inr v, t) \<Rightarrow> (Inr v, setattr t (ident ?g) ''return_value'' v))"
    by blast
  have e: "fcall ?f [VInt 7] Map.empty (?s1\<lparr>user := 1\<rparr>) = (Inr (VInt 2), ?s1\<lparr>user := 2\<rparr>)"
    by (simp add: fail_first_def)
  from t3 e have t4: "fcall ?g [VInt 7] Map.empty (?s1\<lparr>user := 1\<rparr>)
          = (Inr (VInt 2), setattr (?s1\<lparr>user := 2\<rparr>) (ident ?g) ''return_value'' (VInt 2))"
    by simp
  from b c d t1 t2 t4 have w:
    "\<not> hasattr ?s1 (ident ?g) ''return_value'' \<and>
     fcall (Func 0 fail_first) [] Map.empty ?s1
       = (Inl (Raised ''first run fails''), ?s1\<lparr>user := 1\<rparr>) \<and>
     heap (?s1\<lparr>user := 1\<rparr>) (ident ?g) = heap ?s1 (ident ?g) \<and>
     fcall ?g [] Map.empty ?s1 = (Inl (Raised ''first run fails''), ?s1\<lparr>user := 1\<rparr>) \<and>
     \<not> hasattr (?s1\<lparr>user := 1\<rparr>) (ident ?g) ''return_value'' \<and>
     fcall ?g [VInt 7] Map.empty (?s1\<lparr>user := 1\<rparr>)
       = (Inr (VInt 2), setattr (?s1\<lparr>user := 2\<rparr>) (ident ?g) ''return_value'' (VInt 2))"
    by blast
  show ?thesis
    by (subst a) (simp only: prod.case, rule w)
qed

text \<open>
  C8. The cache is tested for presence, not for truth. When the cache is empty and the
  run of \<open>func\<close> returns a value \<open>v\<close> that is false when tested (None, False, 0, an
  empty string or list), the call returns \<open>v\<close> and the cache is present afterwards;
  the next call, with any arguments, returns \<open>v\<close> and leaves the state as it is, so
  \<open>func\<close> does not run again.
\<close>

theorem runs_once_caches_falsy_value:
  assumes "runs_once func s0 = (g, s1)"
    and "\<not> hasattr s (ident g) ''return_value''"
    and "fcall func args kwargs s = (Inr v, s')"
    and "\<not> truth v"
  shows "fcall g args kwargs s = (Inr v, setattr s' (ident g) ''return_value'' v) \<and>
         hasattr (setattr s' (ident g) ''return_value'' v) (ident g) ''return_value'' \<and>
         (\<forall>args2 kwargs2.
            fcall g args2 kwargs2 (setattr s' (ident g) ''return_value'' v)
              = (Inr v, setattr s' (ident g) ''return_value'' v))"
proof -
  from assms(1) have g: "g = Func (fresh s0) (decorated func (fresh s0))"
    by (rule runs_once_result)
  from assms(2,3) have first: "fcall g args kwargs s = (Inr v, setattr s' (ident g) ''return_value'' v)"
    by (simp add: g decorated_first_return)
  have present: "hasattr (setattr s' (ident g) ''return_value'' v) (ident g) ''return_value''"
    by (simp add: hasattr_setattr)
  have second: "\<forall>args2 kwargs2.
            fcall g args2 kwargs2 (setattr s' (ident g) ''return_value'' v)
              = (Inr v, setattr s' (ident g) ''return_value'' v)"
    by (simp add: g decorated_cached getattr_setattr_same)
  from first present second show ?thesis by blast
qed

theorem runs_once_caches_falsy_value_witness:
  "(case runs_once (Func 0 return_none) start of
      (g, s1) \<Rightarrow>
        \<not> hasattr s1 (ident g) ''return_value'' \<and>
        fcall (Func 0 return_none) [] Map.empty s1 = (Inr VNone, s1\<lparr>user := 1\<rparr>) \<and>
        \<not> truth VNone \<and>
        fcall g [] Map.empty s1
          = (Inr VNone, setattr (s1\<lparr>user := 1\<rparr>) (ident g) ''return_value'' VNone) \<and>
        fcall g [VInt 7] Map.empty (setattr (s1\<lparr>user := 1\<rparr>) (ident g) ''return_value'' VNone)
          = (Inr VNone, setattr (s1\<lparr>user := 1\<rparr>) (ident g) ''return_value'' VNone))"
proof -
  let ?f = "Func 0 return_none :: nat func"
  let ?g = "Func 1 (decorated ?f 1) :: nat func"
  let ?s1 = "snd (runs_once ?f start)"
  have a: "runs_once ?f start = (?g, ?s1)"
    by (simp add: runs_once_def new_function_def start_def)
  have b: "\<not> hasattr ?s1 (ident ?g) ''return_value''"
    by (simp add: model_defs example_defs)
  have c: "fcall ?f [] Map.empty ?s1 = (Inr VNone, ?s1\<lparr>user := 1\<rparr>)"
    by (simp add: model_defs example_defs)
  have d: "\<not> truth VNone"
    by simp
  note t = runs_once_caches_falsy_value [OF a b c d]
  from t have t1: "fcall ?g [] Map.empty ?s1
          = (Inr VNone, setattr (?s1\<lparr>user := 1\<rparr>) (ident ?g) ''return_value'' VNone)"
    by blast
  from t have t2: "fcall ?g [VInt 7] Map.empty (setattr (?s1\<lparr>user := 1\<rparr>) (ident ?g) ''return_value'' VNone)
          = (Inr VNone, setattr (?s1\<lparr>user := 1\<rparr>) (ident ?g) ''return_value'' VNone)"
    by blast
  from b c d t1 t2 have w:
    "\<not> hasattr ?s1 (ident ?g) ''return_value'' \<and>
     fcall (Func 0 return_none) [] Map.empty ?s1 = (Inr VNone, ?s1\<lparr>user := 1\<rparr>) \<and>
     \<not> truth VNone \<and>
     fcall ?g [] Map.empty ?s1
       = (Inr VNone, setattr (?s1\<lparr>user := 1\<rparr>) (ident ?g) ''return_value'' VNone) \<and>
     fcall ?g [VInt 7] Map.empty (setattr (?s1\<lparr>user := 1\<rparr>) (ident ?g) ''return_value'' VNone)
       = (Inr VNone, setattr (?s1\<lparr>user := 1\<rparr>) (ident ?g) ''return_value'' VNone)"
    by blast
  show ?thesis
    by (subst a) (simp only: prod.case, rule w)
qed

subsection \<open>Stacked decorators\<close>

text \<open>
  C10. The wrapper that \<^verbatim>\<open>hosts\<close> or \<^verbatim>\<open>roles\<close> returns has every attribute of
  the wrapped function (\<^verbatim>\<open>wraps\<close> copies its dictionary), apart from the one the
  decorator sets itself; the wrapper that \<^verbatim>\<open>with_settings\<close> returns has no
  attribute at all, whatever the wrapped function carried.
\<close>

theorem wrappers_copy_or_drop_metadata:
  assumes "ident f < fresh s"
  shows "(hosts args f s = (Inr g, s') \<longrightarrow>
            (\<forall>k. k \<noteq> ''hosts'' \<longrightarrow> getattr s' (ident g) k = getattr s (ident f) k)) \<and>
         (roles args f s = (Inr g, s') \<longrightarrow>
            (\<forall>k. k \<noteq> ''roles'' \<longrightarrow> getattr s' (ident g) k = getattr s (ident f) k)) \<and>
         (\<forall>k. \<not> hasattr (snd (with_settings kw f s)) (ident (fst (with_settings kw f s))) k)"
proof (intro conjI impI allI)
  from assms have ne: "ident f \<noteq> fresh s" by simp
  {
    fix k :: string
    assume h: "hosts args f s = (Inr g, s')" and k: "k \<noteq> ''hosts''"
    from h obtain xs where "g = Func (fresh s) (inner_decorator f)"
      and "s' = setattr (update_wrapper (fresh s) (ident f) (snd (new_function ''inner_decorator'' s)))
               (fresh s) ''hosts'' (VList xs)"
      using attach_hosts_cases unfolding hosts_def by blast
    with ne k show "getattr s' (ident g) k = getattr s (ident f) k"
      by (simp add: getattr_def wrapper_copies_dict)
  next
    fix k :: string
    assume h: "roles args f s = (Inr g, s')" and k: "k \<noteq> ''roles''"
    from h obtain xs where "g = Func (fresh s) (inner_decorator f)"
      and "s' = setattr (update_wrapper (fresh s) (ident f) (snd (new_function ''inner_decorator'' s)))
               (fresh s) ''roles'' (VList xs)"
      using attach_roles_cases unfolding roles_def by blast
    with ne k show "getattr s' (ident g) k = getattr s (ident f) k"
      by (simp add: getattr_def wrapper_copies_dict)
  next
    fix k :: string
    show "\<not> hasattr (snd (with_settings kw f s)) (ident (fst (with_settings kw f s))) k"
      by (simp add: with_settings_def outer_def new_function_def hasattr_def)
  }
qed

theorem wrappers_copy_or_drop_metadata_witness:
  "(case hosts [VStr ''host1''] (Func 0 count_calls) start of
      (r1, s1) \<Rightarrow>
        r1 = Inr (Func 1 (inner_decorator (Func 0 count_calls))) \<and>
        1 < fresh s1 \<and>
        getattr s1 1 ''hosts'' = Inr (VList [VStr ''host1'']) \<and>
        (case roles [VStr ''web''] (Func 1 (inner_decorator (Func 0 count_calls))) s1 of
           (r2, s2) \<Rightarrow>
             r2 = Inr (Func 2 (inner_decorator (Func 1 (inner_decorator (Func 0 count_calls))))) \<and>
             getattr s2 2 ''hosts'' = Inr (VList [VStr ''host1''])) \<and>
        \<not> hasattr (snd (with_settings [''warn_only'' \<mapsto> VBool True]
                          (Func 1 (inner_decorator (Func 0 count_calls))) s1))
            (ident (fst (with_settings [''warn_only'' \<mapsto> VBool True]
                          (Func 1 (inner_decorator (Func 0 count_calls))) s1))) ''hosts'')"
proof -
  let ?f = "Func 0 count_calls :: nat func"
  let ?g1 = "Func 1 (inner_decorator ?f) :: nat func"
  let ?g2 = "Func 2 (inner_decorator ?g1) :: nat func"
  let ?s1 = "snd (hosts [VStr ''host1''] ?f start)"
  let ?s2 = "snd (roles [VStr ''web''] ?g1 ?s1)"
  let ?kw = "[''warn_only'' \<mapsto> VBool True]"
  have a: "hosts [VStr ''host1''] ?f start = (Inr ?g1, ?s1)"
    by (simp add: hosts_def attach_hosts_def new_function_def start_def)
  have b: "ident ?g1 < fresh ?s1"
    by (simp add: model_defs example_defs)
  have b': "1 < fresh ?s1"
    using b by simp
  have c: "getattr ?s1 1 ''hosts'' = Inr (VList [VStr ''host1''])"
    by (simp add: model_defs example_defs)
  have d: "roles [VStr ''web''] ?g1 ?s1 = (Inr ?g2, ?s2)"
    by (simp add: model_defs example_defs)
  note t = wrappers_copy_or_drop_metadata [OF b, of "[VStr ''web'']" ?g2 ?s2 ?kw]
  have ne: "''hosts'' \<noteq> ''roles''"
    by simp
  note copied = t [THEN conjunct2, THEN conjunct1, THEN mp, OF d,
      THEN spec [where x = "''hosts''"], THEN mp, OF ne]
  note dropped = t [THEN conjunct2, THEN conjunct2, THEN spec [where x = "''hosts''"]]
  from copied c have e: "getattr ?s2 2 ''hosts'' = Inr (VList [VStr ''host1''])"
    by simp
  have w2: "case roles [VStr ''web''] ?g1 ?s1 of
           (r2, s2) \<Rightarrow> r2 = Inr ?g2 \<and> getattr s2 2 ''hosts'' = Inr (VList [VStr ''host1''])"
    by (subst d) (simp only: prod.case, rule conjI [OF refl e])
  have w:
    "Inr ?g1 = (Inr ?g1 :: exn + nat func) \<and>
     1 < fresh ?s1 \<and>
     getattr ?s1 1 ''hosts'' = Inr (VList [VStr ''host1'']) \<and>
     (case roles [VStr ''web''] ?g1 ?s1 of
           (r2, s2) \<Rightarrow> r2 = Inr ?g2 \<and> getattr s2 2 ''hosts'' = Inr (VList [VStr ''host1''])) \<and>
     \<not> hasattr (snd (with_settings ?kw ?g1 ?s1)) (ident (fst (with_settings ?kw ?g1 ?s1))) ''hosts''"
    by (rule conjI [OF refl conjI [OF b' conjI [OF c conjI [OF w2 dropped]]]])
  show ?thesis
    by (subst a) (simp only: prod.case, rule w)
qed

end
